theory Spec2Isabelle
  imports Complex_Main
begin

section \<open>Data model of \<open>landlab/model_grid.py\<close>\<close>

text \<open>
  The grid classes keep their topology in parallel numpy arrays indexed by dense
  integer ids. Arrays are lists, node, link and cell ids are natural numbers, array
  values (\<open>s\<close>, fluxes, gradients, \<open>dx\<close>) are real numbers, and every exception the
  source can raise is a value of \<open>error\<close>: a method is a function from the grid state
  (and its arguments) to \<open>error + result\<close>.
\<close>

datatype error = AssertionError | IndexError | ValueError | AttributeError | MissingKeyError
  | ParameterValueError

text \<open>
  The boundary-type codes \<open>INTERIOR_NODE = 0\<close>, \<open>FIXED_VALUE_BOUNDARY = 1\<close>,
  \<open>FIXED_GRADIENT_BOUNDARY = 2\<close>, \<open>TRACKS_CELL_BOUNDARY = 3\<close>, \<open>INACTIVE_BOUNDARY = 4\<close>.
\<close>

datatype node_status_code = INTERIOR_NODE | FIXED_VALUE_BOUNDARY | FIXED_GRADIENT_BOUNDARY
  | TRACKS_CELL_BOUNDARY | INACTIVE_BOUNDARY

text \<open>
  \<open>BAD_INDEX_VALUE = numpy.iinfo(numpy.int).max\<close> is the "no cell / no face" sentinel
  of the index arrays \<open>node_activecell\<close> and \<open>link_face\<close>. It is no index of any array, so
  an entry of such an array is an optional index and the sentinel is \<open>None\<close>.
\<close>

definition BAD_INDEX_VALUE :: "nat option" where
  "BAD_INDEX_VALUE = None"

text \<open>
  The attributes of a grid object that the operations below read or write. The first
  group is set by \<open>RasterModelGrid.initialize\<close>; \<open>link_length\<close>, \<open>face_width\<close> and
  \<open>active_cell_areas\<close> are the per-element geometry arrays that the generic
  \<open>ModelGrid\<close> operators read (the raster overrides use \<open>dx\<close> and \<open>cellarea\<close> instead).
  Node coordinates and the inlink/outlink matrices of the full link set are not carried:
  no operation embedded here reads them.
\<close>

record grid =
  nrows :: nat
  ncols :: nat
  dx :: real
  cellarea :: real
  num_nodes :: nat
  num_cells :: nat
  num_active_cells :: nat
  num_links :: nat
  num_active_links :: nat
  num_faces :: nat
  node_status :: "node_status_code list"
  cell_node :: "nat list"
  node_activecell :: "nat option list"
  activecell_node :: "nat list"
  link_fromnode :: "nat list"
  link_tonode :: "nat list"
  active_links :: "nat list"
  activelink_fromnode :: "nat list"
  activelink_tonode :: "nat list"
  node_numactiveinlink :: "nat list"
  node_numactiveoutlink :: "nat list"
  node_active_inlink_matrix :: "int list list"
  node_active_outlink_matrix :: "int list list"
  link_face :: "nat option list"
  link_length :: "real list"
  face_width :: "real list"
  active_cell_areas :: "real list"

section \<open>Array primitives\<close>

text \<open>A Python \<open>for\<close> loop whose body may raise: the first exception ends the loop.\<close>

fun for_each :: "('a \<Rightarrow> 's \<Rightarrow> error + 's) \<Rightarrow> 'a list \<Rightarrow> 's \<Rightarrow> error + 's" where
  "for_each body [] s = Inr s"
| "for_each body (x # xs) s =
     (case body x s of Inl e \<Rightarrow> Inl e | Inr s' \<Rightarrow> for_each body xs s')"

text \<open>\<open>a[i]\<close> for a non-negative index: out of range raises \<open>IndexError\<close>.\<close>

definition getitem :: "'a list \<Rightarrow> nat \<Rightarrow> error + 'a" where
  "getitem a i = (if i < length a then Inr (a ! i) else Inl IndexError)"

text \<open>\<open>a[idx]\<close> with an index array \<open>idx\<close> (numpy fancy indexing).\<close>

definition take_idx :: "'a list \<Rightarrow> nat list \<Rightarrow> error + 'a list" where
  "take_idx a idx =
     (if list_all (\<lambda>i. i < length a) idx then Inr (map (\<lambda>i. a ! i) idx) else Inl IndexError)"

text \<open>\<open>a[idx] = v\<close> with an index array and a scalar \<open>v\<close>.\<close>

definition put_idx :: "'a list \<Rightarrow> nat list \<Rightarrow> 'a \<Rightarrow> error + 'a list" where
  "put_idx a idx v =
     (if list_all (\<lambda>i. i < length a) idx then Inr (fold (\<lambda>i b. b[i := v]) idx a)
      else Inl IndexError)"

text \<open>\<open>numpy.where(mask)\<close> / \<open>numpy.nonzero(mask)\<close>: the indices at which the mask holds.\<close>

definition np_where :: "bool list \<Rightarrow> nat list" where
  "np_where msk = filter (\<lambda>i. msk ! i) [0..<length msk]"

text \<open>
  The operands of an elementwise binary operation: equal shapes pair up, a one-element
  operand is broadcast, anything else raises \<open>ValueError\<close>.
\<close>

definition broadcast2 :: "'a list \<Rightarrow> 'b list \<Rightarrow> error + ('a \<times> 'b) list" where
  "broadcast2 a b =
     (if length a = length b then Inr (zip a b)
      else if length a = 1 then Inr (zip (replicate (length b) (hd a)) b)
      else if length b = 1 then Inr (zip a (replicate (length a) (hd b)))
      else Inl ValueError)"

text \<open>\<open>numpy.bincount(x, minlength=n)\<close>.\<close>

definition bincount :: "nat list \<Rightarrow> nat \<Rightarrow> nat list" where
  "bincount x n =
     map (\<lambda>v. count_list x v) [0..<max n (if x = [] then 0 else Suc (fold max x 0))]"

text \<open>
  Modelled from the spec: \<open>count_repeated_values\<close> of \<open>landlab.utils\<close> is not part of the
  source file. Section 4.4 asks for a bounded-width table of link ids per node, padded
  with the no-link sentinel; the doctest of \<open>RasterModelGrid.initialize\<close> and the loop of
  \<open>setup_active_inlink_and_outlink_matrices_slow\<close> fix the slot order: slot \<open>j\<close> of a node holds
  the position of its \<open>(j+1)\<close>-th occurrence. So element \<open>j\<close> of the result pairs the
  (sorted) values that occur more than \<open>j\<close> times with the positions of their
  \<open>(j+1)\<close>-th occurrences, and the result has as many elements as the most frequent
  value has occurrences.
\<close>

definition occurrences :: "nat list \<Rightarrow> nat \<Rightarrow> nat list" where
  "occurrences x v = filter (\<lambda>k. x ! k = v) [0..<length x]"

definition count_repeated_values :: "nat list \<Rightarrow> (nat list \<times> nat list) list" where
  "count_repeated_values x =
     map (\<lambda>j. let vs = filter (\<lambda>v. j < count_list x v) (sort (remdups x))
              in (vs, map (\<lambda>v. occurrences x v ! j) vs))
         [0..<fold max (map (count_list x) x) 0]"

text \<open>\<open>row[nodes] = ids\<close> with two index arrays of the same length.\<close>

definition index_assign :: "int list \<Rightarrow> nat list \<Rightarrow> nat list \<Rightarrow> error + int list" where
  "index_assign row nodes ids =
     (if length nodes \<noteq> length ids then Inl ValueError
      else if \<not> list_all (\<lambda>n. n < length row) nodes then Inl IndexError
      else Inr (fold (\<lambda>(n, i) r. r[n := int i]) (zip nodes ids) row))"

text \<open>
  \<open>for (count, (nodes, ids)) in enumerate(counts): matrix[count][nodes] = ids\<close>;
  \<open>matrix[count]\<close> raises \<open>IndexError\<close> when the matrix has no such row.
\<close>

fun assign_counts ::
  "int list list \<Rightarrow> nat \<Rightarrow> (nat list \<times> nat list) list \<Rightarrow> error + int list list" where
  "assign_counts m count [] = Inr m"
| "assign_counts m count ((nodes, ids) # rest) =
     (if count < length m then
        (case index_assign (m ! count) nodes ids of
           Inl e \<Rightarrow> Inl e
         | Inr row \<Rightarrow> assign_counts (m[count := row]) (Suc count) rest)
      else Inl IndexError)"

section \<open>Active-element manager\<close>

text \<open>
  \<open>RasterModelGrid.setup_active_inlink_and_outlink_matrices\<close>: two rows of \<open>num_nodes\<close>
  slots, filled with \<open>-1\<close>, then the positions (in the active-link arrays) of each node's
  first and second active inlink, and the same for outlinks.
\<close>

definition setup_active_inlink_and_outlink_matrices :: "grid \<Rightarrow> error + grid" where
  "setup_active_inlink_and_outlink_matrices g =
     (let blank = replicate 2 (replicate (num_nodes g) (- 1)) in
      case assign_counts blank 0 (count_repeated_values (activelink_tonode g)) of
        Inl e \<Rightarrow> Inl e
      | Inr inm \<Rightarrow>
          (case assign_counts blank 0 (count_repeated_values (activelink_fromnode g)) of
             Inl e \<Rightarrow> Inl e
           | Inr outm \<Rightarrow>
               Inr (g\<lparr>node_active_inlink_matrix := inm,
                      node_active_outlink_matrix := outm,
                      node_numactiveinlink := bincount (activelink_tonode g) (num_nodes g),
                      node_numactiveoutlink := bincount (activelink_fromnode g) (num_nodes g)\<rparr>)))"

text \<open>The activation rule, on the status codes of a link's from-node and to-node.\<close>

definition link_is_active :: "node_status_code \<Rightarrow> node_status_code \<Rightarrow> bool" where
  "link_is_active fromnode_status tonode_status =
     ((fromnode_status = INTERIOR_NODE \<and> \<not> tonode_status = INACTIVE_BOUNDARY) \<or>
      (tonode_status = INTERIOR_NODE \<and> \<not> fromnode_status = INACTIVE_BOUNDARY))"

text \<open>
  \<open>ModelGrid.reset_list_of_active_links\<close>, the boolean-array formulation. On a raster
  grid the final call resolves to the raster override above.
\<close>

definition reset_list_of_active_links :: "grid \<Rightarrow> error + grid" where
  "reset_list_of_active_links g =
     (case take_idx (node_status g) (link_fromnode g) of
        Inl e \<Rightarrow> Inl e
      | Inr fromnode_status \<Rightarrow>
     (case take_idx (node_status g) (link_tonode g) of
        Inl e \<Rightarrow> Inl e
      | Inr tonode_status \<Rightarrow>
     (case broadcast2 fromnode_status tonode_status of
        Inl e \<Rightarrow> Inl e
      | Inr pairs \<Rightarrow>
     (let al = np_where (map (\<lambda>(f, t). link_is_active f t) pairs) in
      case take_idx (link_fromnode g) al of
        Inl e \<Rightarrow> Inl e
      | Inr alf \<Rightarrow>
     (case take_idx (link_tonode g) al of
        Inl e \<Rightarrow> Inl e
      | Inr alt \<Rightarrow>
          setup_active_inlink_and_outlink_matrices
            (g\<lparr>active_links := al, num_active_links := length al,
               activelink_fromnode := alf, activelink_tonode := alt\<rparr>))))))"

text \<open>
  \<open>reset_list_of_active_links_slow\<close>, the per-link loop formulation, with its own
  loop-based setup of the active inlink and outlink matrices.
\<close>

definition then_do :: "error + 'a \<Rightarrow> ('a \<Rightarrow> error + 'b) \<Rightarrow> error + 'b" where
  "then_do r f = (case r of Inl e \<Rightarrow> Inl e | Inr x \<Rightarrow> f x)"







section \<open>Raster grid builder\<close>

text \<open>
  Modelled from the spec: the helpers of \<open>landlab.utils.structured_grid\<close> are not part
  of the source file. Nodes are numbered row-major, node \<open>n\<close> lying in row \<open>n div C\<close> and
  column \<open>n mod C\<close>; under the default fully-open boundary every perimeter node is
  FIXED_VALUE and every other node INTERIOR; cells are the interior nodes, numbered
  row-major in node order, and a node without a cell carries \<open>BAD_INDEX_VALUE\<close>.
\<close>

definition is_perimeter :: "nat \<Rightarrow> nat \<Rightarrow> nat \<Rightarrow> bool" where
  "is_perimeter R C n =
     (n div C = 0 \<or> n div C = R - 1 \<or> n mod C = 0 \<or> n mod C = C - 1)"

definition sgrid_node_status :: "nat \<Rightarrow> nat \<Rightarrow> node_status_code list" where
  "sgrid_node_status R C =
     map (\<lambda>n. if is_perimeter R C n then FIXED_VALUE_BOUNDARY else INTERIOR_NODE) [0..<R * C]"

definition sgrid_cell_node_index :: "nat \<Rightarrow> nat \<Rightarrow> nat list" where
  "sgrid_cell_node_index R C = filter (\<lambda>n. \<not> is_perimeter R C n) [0..<R * C]"

definition sgrid_node_active_cell :: "nat \<Rightarrow> nat \<Rightarrow> nat option list" where
  "sgrid_node_active_cell R C =
     map (\<lambda>n. if is_perimeter R C n then BAD_INDEX_VALUE
              else Some ((n div C - 1) * (C - 2) + (n mod C - 1))) [0..<R * C]"

text \<open>
  The link lists, as the two nested loops of \<open>initialize\<close> build them (the vectorised
  \<open>sgrid.node_link_index\<close> returns the same arrays): all vertical links row by row, then
  all horizontal links row by row, each as its (from-node, to-node) pair.
\<close>

definition vertical_links :: "nat \<Rightarrow> nat \<Rightarrow> (nat \<times> nat) list" where
  "vertical_links R C =
     concat (map (\<lambda>r. map (\<lambda>c. (c + r * C, c + (r + 1) * C)) [0..<C]) [0..<R - 1])"

definition horizontal_links :: "nat \<Rightarrow> nat \<Rightarrow> (nat \<times> nat) list" where
  "horizontal_links R C =
     concat (map (\<lambda>r. map (\<lambda>c. (c + r * C, c + r * C + 1)) [0..<C - 1]) [0..<R])"

text \<open>
  The face of each link: the active links are numbered in order, every other link keeps
  the sentinel (\<open>for link in self.active_links: self.link_face[link] = face_id\<close>).
\<close>

definition link_faces :: "nat \<Rightarrow> nat list \<Rightarrow> nat option list" where
  "link_faces n actives =
     fold (\<lambda>(face_id, link) lf. lf[link := Some face_id]) (enumerate 0 actives)
          (replicate n BAD_INDEX_VALUE)"

text \<open>
  \<open>RasterModelGrid.initialize(num_rows, num_cols, dx)\<close>. The counts are assigned
  first and the 3 by 3 minimum is asserted after them; a failed assertion leaves no
  grid. The geometry arrays of the generic operators are not attributes of a raster
  grid and stay empty.
\<close>

definition initialize :: "int \<Rightarrow> int \<Rightarrow> real \<Rightarrow> error + grid" where
  "initialize num_rows num_cols dx0 =
     (if min num_rows num_cols < 3 then Inl AssertionError
      else
        let R = nat num_rows; C = nat num_cols;
            links = vertical_links R C @ horizontal_links R C;
            nlinks = nat (num_cols * (num_rows - 1) + num_rows * (num_cols - 1))
        in then_do
          (reset_list_of_active_links
            \<lparr>nrows = R, ncols = C, dx = dx0, cellarea = dx0 * dx0,
             num_nodes = nat (num_rows * num_cols),
             num_cells = nat ((num_rows - 2) * (num_cols - 2)),
             num_active_cells = nat ((num_rows - 2) * (num_cols - 2)),
             num_links = nlinks,
             num_active_links = nat (int nlinks - (2 * (num_cols - 1) + 2 * (num_rows - 1))),
             num_faces = nat ((num_rows - 1) * (num_cols - 2) + (num_rows - 2) * (num_cols - 1)),
             node_status = sgrid_node_status R C,
             cell_node = sgrid_cell_node_index R C,
             node_activecell = sgrid_node_active_cell R C,
             activecell_node = sgrid_cell_node_index R C,
             link_fromnode = map fst links,
             link_tonode = map snd links,
             active_links = [], activelink_fromnode = [], activelink_tonode = [],
             node_numactiveinlink = [], node_numactiveoutlink = [],
             node_active_inlink_matrix = [], node_active_outlink_matrix = [],
             link_face = [], link_length = [], face_width = [], active_cell_areas = []\<rparr>)
          (\<lambda>g. Inr (g\<lparr>link_face := link_faces (num_links g) (active_links g)\<rparr>)))"

text \<open>
  The constructor \<open>RasterModelGrid(num_rows, num_cols, dx)\<close>: the grid is initialised only
  when \<open>num_rows * num_cols > 0\<close>; otherwise the object has no grid attributes (\<open>None\<close>).
\<close>

definition RasterModelGrid :: "int \<Rightarrow> int \<Rightarrow> real \<Rightarrow> error + grid option" where
  "RasterModelGrid num_rows num_cols dx0 =
     (if num_rows * num_cols > 0 then then_do (initialize num_rows num_cols dx0) (\<lambda>g. Inr (Some g))
      else Inr None)"

section \<open>Boundary condition controller\<close>


text \<open>\<open>range(start, stop, step)\<close> for a non-negative start; a zero step raises \<open>ValueError\<close>.\<close>

definition py_range :: "nat \<Rightarrow> nat \<Rightarrow> nat \<Rightarrow> error + nat list" where
  "py_range start stop step =
     (if step = 0 then Inl ValueError
      else Inr (map (\<lambda>k. start + k * step) [0..<(stop - start + step - 1) div step]))"

definition boundary_code :: "bool \<Rightarrow> node_status_code" where
  "boundary_code is_inactive = (if is_inactive then INACTIVE_BOUNDARY else FIXED_VALUE_BOUNDARY)"

text \<open>
  \<open>RasterModelGrid.set_inactive_boundaries\<close>. Every initialised raster grid has at least
  three rows and three columns, so the subtractions in the four ranges are exact on
  natural numbers.
\<close>

definition set_inactive_boundaries :: "grid \<Rightarrow> bool \<Rightarrow> bool \<Rightarrow> bool \<Rightarrow> bool \<Rightarrow> error + grid" where
  "set_inactive_boundaries g bottom_is_inactive right_is_inactive top_is_inactive left_is_inactive =
     (let bottom_edge = [0..<ncols g - 1];
          top_edge = [(nrows g - 1) * ncols g + 1..<num_nodes g] in
      then_do (py_range (ncols g - 1) (num_nodes g - 1) (ncols g)) (\<lambda>right_edge.
      then_do (py_range (ncols g) (num_nodes g) (ncols g)) (\<lambda>left_edge.
      then_do (put_idx (node_status g) bottom_edge (boundary_code bottom_is_inactive)) (\<lambda>st1.
      then_do (put_idx st1 right_edge (boundary_code right_is_inactive)) (\<lambda>st2.
      then_do (put_idx st2 top_edge (boundary_code top_is_inactive)) (\<lambda>st3.
      then_do (put_idx st3 left_edge (boundary_code left_is_inactive)) (\<lambda>st4.
        reset_list_of_active_links (g\<lparr>node_status := st4\<rparr>))))))))"

section \<open>A concrete grid\<close>

text \<open>
  The 3 by 3 raster grid with unit spacing, as \<open>RasterModelGrid(3, 3, 1.0)\<close> builds it:
  node 4 is the only interior node, and links 1, 4, 8 and 9 (the four links that touch
  it) are active.
\<close>

definition raster_3x3 :: grid where
  "raster_3x3 =
     \<lparr>nrows = 3, ncols = 3, dx = 1, cellarea = 1, num_nodes = 9,
      num_cells = 1, num_active_cells = 1, num_links = 12,
      num_active_links = 4, num_faces = 4,
      node_status =
        [FIXED_VALUE_BOUNDARY, FIXED_VALUE_BOUNDARY, FIXED_VALUE_BOUNDARY,
         FIXED_VALUE_BOUNDARY, INTERIOR_NODE, FIXED_VALUE_BOUNDARY,
         FIXED_VALUE_BOUNDARY, FIXED_VALUE_BOUNDARY, FIXED_VALUE_BOUNDARY],
      cell_node = [4],
      node_activecell = [None, None, None, None, Some 0, None, None, None, None],
      activecell_node = [4],
      link_fromnode = [0, 1, 2, 3, 4, 5, 0, 1, 3, 4, 6, 7],
      link_tonode = [3, 4, 5, 6, 7, 8, 1, 2, 4, 5, 7, 8],
      active_links = [1, 4, 8, 9], activelink_fromnode = [1, 4, 3, 4],
      activelink_tonode = [4, 7, 4, 5],
      node_numactiveinlink = [0, 0, 0, 0, 2, 1, 0, 1, 0],
      node_numactiveoutlink = [0, 1, 0, 1, 2, 0, 0, 0, 0],
      node_active_inlink_matrix =
        [[- 1, - 1, - 1, - 1, 0, 3, - 1, 1, - 1],
         [- 1, - 1, - 1, - 1, 2, - 1, - 1, - 1, - 1]],
      node_active_outlink_matrix =
        [[- 1, 0, - 1, 2, 1, - 1, - 1, - 1, - 1],
         [- 1, - 1, - 1, - 1, 3, - 1, - 1, - 1, - 1]],
      link_face =
        [None, Some 0, None, None, Some 1, None, None, None, Some 2,
         Some 3, None, None],
      link_length = [], face_width = [], active_cell_areas = []\<rparr>"



text \<open>
  The 3 by 3 grid after \<open>set_inactive_boundaries(True, True, True, True)\<close>: every
  perimeter node is closed, so no link is active.
\<close>

definition raster_3x3_all_closed :: grid where
  "raster_3x3_all_closed =
     raster_3x3\<lparr>num_active_links := 0,
       node_status :=
        [INACTIVE_BOUNDARY, INACTIVE_BOUNDARY, INACTIVE_BOUNDARY,
         INACTIVE_BOUNDARY, INTERIOR_NODE, INACTIVE_BOUNDARY,
         INACTIVE_BOUNDARY, INACTIVE_BOUNDARY, INACTIVE_BOUNDARY],
       active_links := [], activelink_fromnode := [],
       activelink_tonode := [],
       node_numactiveinlink := [0, 0, 0, 0, 0, 0, 0, 0, 0],
       node_numactiveoutlink := [0, 0, 0, 0, 0, 0, 0, 0, 0],
       node_active_inlink_matrix :=
        [[- 1, - 1, - 1, - 1, - 1, - 1, - 1, - 1, - 1],
         [- 1, - 1, - 1, - 1, - 1, - 1, - 1, - 1, - 1]],
       node_active_outlink_matrix :=
        [[- 1, - 1, - 1, - 1, - 1, - 1, - 1, - 1, - 1],
         [- 1, - 1, - 1, - 1, - 1, - 1, - 1, - 1, - 1]]\<rparr>"

section \<open>Differential operators: gradient at active links\<close>

text \<open>
  The loop body of \<open>ModelGrid.calculate_gradients_at_active_links\<close>; the loop state is
  \<open>(active_link_id, gradient)\<close>, and the assignment writes into the array in place.
\<close>

definition gradient_body ::
  "grid \<Rightarrow> real list \<Rightarrow> nat \<Rightarrow> nat \<times> real list \<Rightarrow> error + nat \<times> real list" where
  "gradient_body g s link_id st =
     (case st of (active_link_id, gradient) \<Rightarrow>
      then_do (getitem (link_tonode g) link_id) (\<lambda>tonode.
      then_do (getitem s tonode) (\<lambda>s_to.
      then_do (getitem (link_fromnode g) link_id) (\<lambda>fromnode.
      then_do (getitem s fromnode) (\<lambda>s_from.
      then_do (getitem (link_length g) link_id) (\<lambda>len.
        if active_link_id < length gradient
        then Inr (Suc active_link_id, gradient[active_link_id := (s_to - s_from) / len])
        else Inl IndexError))))))"

text \<open>
  \<open>ModelGrid.calculate_gradients_at_active_links(s, gradient=None)\<close>, the generic
  operator. Without a buffer it fills a fresh array of zeros; with a buffer (as in the
  doctest of the raster override, \<open>gradient == None\<close> is false for an array) it fills the
  buffer. The result is the filled array.
\<close>

definition ModelGrid_calculate_gradients_at_active_links ::
  "grid \<Rightarrow> real list \<Rightarrow> real list option \<Rightarrow> error + real list" where
  "ModelGrid_calculate_gradients_at_active_links g s gradient =
     (let gradient0 = (case gradient of None \<Rightarrow> replicate (num_active_links g) 0 | Some b \<Rightarrow> b)
      in if length gradient0 \<noteq> num_active_links g then Inl AssertionError
         else then_do (for_each (gradient_body g s) (active_links g) (0, gradient0))
                (\<lambda>(active_link_id, gradient). Inr gradient))"

text \<open>
  The raster override rebinds its parameter to the array of a new expression, so whether
  its result is the caller's buffer matters. Arrays live in a store: a reference is a
  position in the store, and creating an array appends it.
\<close>

type_synonym store = "real list list"

definition numpy_new :: "store \<Rightarrow> real list \<Rightarrow> store \<times> nat" where
  "numpy_new st a = (st @ [a], length st)"

text \<open>
  \<open>RasterModelGrid.calculate_gradients_at_active_links(s, gradient=None)\<close>, on
  references: \<open>s\<close> and the optional buffer are references into the store, and the result
  is the store after the call with the reference it returns.
\<close>

definition RasterModelGrid_calculate_gradients_at_active_links ::
  "grid \<Rightarrow> store \<Rightarrow> nat \<Rightarrow> nat option \<Rightarrow> error + store \<times> nat" where
  "RasterModelGrid_calculate_gradients_at_active_links g st s gradient =
     (case (case gradient of None \<Rightarrow> numpy_new st (replicate (num_active_links g) 0)
                           | Some b \<Rightarrow> (st, b)) of
        (st1, gradient1) \<Rightarrow>
          if length (st1 ! gradient1) \<noteq> num_active_links g then Inl AssertionError
          else then_do (take_idx (st1 ! s) (activelink_tonode g)) (\<lambda>s_to.
               then_do (take_idx (st1 ! s) (activelink_fromnode g)) (\<lambda>s_from.
               then_do (broadcast2 s_to s_from) (\<lambda>ps.
                 Inr (numpy_new st1 (map (\<lambda>(a, b). (a - b) / dx g) ps))))))"

text \<open>
  Well-formed link arrays (one from-node and one to-node per link, each a node of the
  grid), and active-link arrays that are current: what the builders and every
  recomputation of the active links establish.
\<close>

definition links_valid :: "grid \<Rightarrow> bool" where
  "links_valid g \<longleftrightarrow>
     length (link_fromnode g) = length (link_tonode g) \<and>
     list_all (\<lambda>i. i < num_nodes g) (link_fromnode g) \<and>
     list_all (\<lambda>i. i < num_nodes g) (link_tonode g)"

definition active_lists_consistent :: "grid \<Rightarrow> bool" where
  "active_lists_consistent g \<longleftrightarrow>
     num_active_links g = length (active_links g) \<and>
     list_all (\<lambda>l. l < length (link_fromnode g)) (active_links g) \<and>
     activelink_fromnode g = map (\<lambda>l. link_fromnode g ! l) (active_links g) \<and>
     activelink_tonode g = map (\<lambda>l. link_tonode g ! l) (active_links g)"

text \<open>
  The 3 by 3 lattice as a generic grid: unit link lengths, unit face widths and a unit
  cell area.
\<close>

definition lattice_3x3 :: grid where
  "lattice_3x3 =
     raster_3x3\<lparr>link_length := replicate 12 1, face_width := replicate 4 1,
                active_cell_areas := [1]\<rparr>"

text \<open>Node values for the 3 by 3 grid, and a store that holds them and a four-entry buffer.\<close>

definition node_values_3x3 :: "real list" where
  "node_values_3x3 = [0, 1, 2, 3, 4, 5, 6, 7, 8]"

definition store_3x3 :: store where
  "store_3x3 = [node_values_3x3, [9, 9, 9, 9]]"

section \<open>Differential operators: flux divergence at nodes\<close>

text \<open>
  The three operators below are embedded as called with the flux array alone, the
  optional buffer \<open>net_unit_flux\<close> left at its default, so that each call creates its own
  array of zeros. Values are real numbers and division is the division of the reals;
  numpy's division of arrays raises nothing.
\<close>

text \<open>
  \<open>a[idx]\<close> with an array of signed indices: a negative index counts from the end, so
  \<open>-1\<close> reads the last entry.
\<close>

definition take_idx_wrap :: "'a list \<Rightarrow> int list \<Rightarrow> error + 'a list" where
  "take_idx_wrap a idx =
     (if list_all (\<lambda>i. - int (length a) \<le> i \<and> i < int (length a)) idx
      then Inr (map (\<lambda>i. a ! nat (if i < 0 then int (length a) + i else i)) idx)
      else Inl IndexError)"

text \<open>\<open>a[i] += v\<close> and \<open>a[i] -= v\<close>.\<close>

definition iadd :: "real list \<Rightarrow> nat \<Rightarrow> real \<Rightarrow> error + real list" where
  "iadd a i v = (if i < length a then Inr (a[i := a ! i + v]) else Inl IndexError)"

definition isub :: "real list \<Rightarrow> nat \<Rightarrow> real \<Rightarrow> error + real list" where
  "isub a i v = (if i < length a then Inr (a[i := a ! i - v]) else Inl IndexError)"

text \<open>
  \<open>RasterModelGrid.calculate_flux_divergence_at_nodes(active_link_flux)\<close>, the gather
  form: \<open>flux\<close> is the flux array times \<open>dx\<close> with one more entry, zero, at the end, which
  is the entry that the \<open>-1\<close> slots of the matrices read.
\<close>

definition RasterModelGrid_calculate_flux_divergence_at_nodes ::
  "grid \<Rightarrow> real list \<Rightarrow> error + real list" where
  "RasterModelGrid_calculate_flux_divergence_at_nodes g active_link_flux =
     (if length active_link_flux \<noteq> num_active_links g then Inl AssertionError
      else
        let flux = map (\<lambda>q. q * dx g) active_link_flux @ [0] in
        then_do (getitem (node_active_outlink_matrix g) 0) (\<lambda>out0.
        then_do (take_idx_wrap flux out0) (\<lambda>flux_out0.
        then_do (getitem (node_active_outlink_matrix g) 1) (\<lambda>out1.
        then_do (take_idx_wrap flux out1) (\<lambda>flux_out1.
        then_do (broadcast2 flux_out0 flux_out1) (\<lambda>outs.
        then_do (getitem (node_active_inlink_matrix g) 0) (\<lambda>in0.
        then_do (take_idx_wrap flux in0) (\<lambda>flux_in0.
        then_do (getitem (node_active_inlink_matrix g) 1) (\<lambda>in1.
        then_do (take_idx_wrap flux in1) (\<lambda>flux_in1.
        then_do (broadcast2 flux_in0 flux_in1) (\<lambda>ins.
        then_do (broadcast2 (map (\<lambda>(a, b). a + b) outs) (map (\<lambda>(a, b). a + b) ins)) (\<lambda>ps.
          Inr (map (\<lambda>(a, b). (a - b) / cellarea g) ps)))))))))))))"



text \<open>
  The loop body of the generic \<open>ModelGrid.calculate_flux_divergence_at_nodes\<close>: the flux
  of a link is weighted by the width of the link's face and divided by the area of the
  active cell of each end node. A link without a face has \<open>BAD_INDEX_VALUE\<close> as its face,
  which is no index of \<open>face_width\<close>.
\<close>

definition flux_divergence_body ::
  "grid \<Rightarrow> real list \<Rightarrow> nat \<Rightarrow> nat \<times> real list \<Rightarrow> error + nat \<times> real list" where
  "flux_divergence_body g active_link_flux link_id st =
     (case st of (active_link_id, net_unit_flux) \<Rightarrow>
      then_do (getitem (link_fromnode g) link_id) (\<lambda>from_node.
      then_do (getitem (node_activecell g) from_node) (\<lambda>from_cell.
      then_do (getitem (link_tonode g) link_id) (\<lambda>to_node.
      then_do (getitem (node_activecell g) to_node) (\<lambda>to_cell.
      then_do (getitem active_link_flux active_link_id) (\<lambda>q.
      then_do (getitem (link_face g) link_id) (\<lambda>face.
      then_do (case face of None \<Rightarrow> Inl IndexError
               | Some f \<Rightarrow> getitem (face_width g) f) (\<lambda>width.
        let total_flux = q * width in
        then_do (case from_cell of None \<Rightarrow> Inr net_unit_flux
                 | Some c \<Rightarrow>
                     if from_node < length net_unit_flux
                     then then_do (getitem (active_cell_areas g) c)
                            (\<lambda>area. iadd net_unit_flux from_node (total_flux / area))
                     else Inl IndexError) (\<lambda>net1.
        then_do (case to_cell of None \<Rightarrow> Inr net1
                 | Some c \<Rightarrow>
                     if to_node < length net1
                     then then_do (getitem (active_cell_areas g) c)
                            (\<lambda>area. isub net1 to_node (total_flux / area))
                     else Inl IndexError) (\<lambda>net2.
          Inr (Suc active_link_id, net2)))))))))))"

definition ModelGrid_calculate_flux_divergence_at_nodes ::
  "grid \<Rightarrow> real list \<Rightarrow> error + real list" where
  "ModelGrid_calculate_flux_divergence_at_nodes g active_link_flux =
     (if length active_link_flux \<noteq> num_active_links g then Inl AssertionError
      else then_do (for_each (flux_divergence_body g active_link_flux) (active_links g)
                      (0, replicate (num_nodes g) 0))
             (\<lambda>(active_link_id, net_unit_flux). Inr net_unit_flux))"

text \<open>A flux array for the four active links of the 3 by 3 grid.\<close>

definition flux_3x3 :: "real list" where
  "flux_3x3 = [1, 2, 3, 4]"

section \<open>Building a grid from named settings\<close>

text \<open>
  Modelled from the spec: \<open>ModelParameterDictionary\<close> (module
  \<open>model_parameter_dictionary\<close>) is not part of the source file. Section 6 gives its
  interface: read-string, read-int and read-float accessors keyed by name, and a lookup
  with a default. A configuration is a finite map from names to values; reading a
  missing name raises \<open>MissingKeyError\<close>, reading a value of the wrong kind
  \<open>ParameterValueError\<close>. Parsing the configuration from a file is outside the model.
\<close>

datatype param_value = PString string | PInt int | PFloat real

type_synonym param_dict = "string \<rightharpoonup> param_value"

definition read_string :: "param_dict \<Rightarrow> string \<Rightarrow> error + string" where
  "read_string pd name =
     (case pd name of None \<Rightarrow> Inl MissingKeyError
      | Some (PString s) \<Rightarrow> Inr s
      | Some _ \<Rightarrow> Inl ParameterValueError)"

definition read_int :: "param_dict \<Rightarrow> string \<Rightarrow> error + int" where
  "read_int pd name =
     (case pd name of None \<Rightarrow> Inl MissingKeyError
      | Some (PInt i) \<Rightarrow> Inr i
      | Some _ \<Rightarrow> Inl ParameterValueError)"

definition read_float :: "param_dict \<Rightarrow> string \<Rightarrow> error + real" where
  "read_float pd name =
     (case pd name of None \<Rightarrow> Inl MissingKeyError
      | Some (PFloat x) \<Rightarrow> Inr x
      | Some (PInt i) \<Rightarrow> Inr (of_int i)
      | Some _ \<Rightarrow> Inl ParameterValueError)"

text \<open>\<open>param_dict.get(name, default)\<close>.\<close>

definition get_default :: "param_dict \<Rightarrow> string \<Rightarrow> param_value \<Rightarrow> param_value" where
  "get_default pd name d = (case pd name of None \<Rightarrow> d | Some v \<Rightarrow> v)"

text \<open>\<open>str.lower()\<close> and \<open>str.strip()\<close> on ASCII strings.\<close>

definition lower_char :: "char \<Rightarrow> char" where
  "lower_char c =
     (let n = (of_char c :: nat) in if 65 \<le> n \<and> n \<le> 90 then char_of (n + 32) else c)"

definition lower :: "string \<Rightarrow> string" where
  "lower s = map lower_char s"

definition is_space :: "char \<Rightarrow> bool" where
  "is_space c = ((of_char c :: nat) \<in> {9, 10, 11, 12, 13, 32})"

definition strip :: "string \<Rightarrow> string" where
  "strip s = rev (dropWhile is_space (rev (dropWhile is_space s)))"

text \<open>
  \<open>_is_closed_boundary(boundary_string)\<close>; a value that is no string has no
  \<open>lower\<close> method.
\<close>

definition is_closed_boundary :: "param_value \<Rightarrow> error + bool" where
  "is_closed_boundary v =
     (case v of PString s \<Rightarrow> Inr (lower s = ''closed'') | _ \<Rightarrow> Inl AttributeError)"

text \<open>
  \<open>create_and_initialize_grid(input_source)\<close>, from the point where the parameter
  dictionary exists. The statement \<open>grid_type.strip().lower()\<close> discards its result, so
  the name is compared as it was read. The result is what the call printed and the
  value it returned, \<open>None\<close> being Python's \<open>None\<close>.
\<close>

definition create_and_initialize_grid :: "param_dict \<Rightarrow> error + string list \<times> grid option" where
  "create_and_initialize_grid param_dict =
     then_do (read_string param_dict ''GRID_TYPE'') (\<lambda>grid_type.
       if grid_type = ''raster'' then
         then_do (read_int param_dict ''NUM_ROWS'') (\<lambda>nrows.
         then_do (read_int param_dict ''NUM_COLS'') (\<lambda>ncols.
         then_do (read_float param_dict ''GRID_SPACING'') (\<lambda>dx.
         then_do (RasterModelGrid nrows ncols dx) (\<lambda>mg.
           let left_boundary_type = get_default param_dict ''LEFT_BOUNDARY'' (PString ''open'');
               right_boundary_type = get_default param_dict ''RIGHT_BOUNDARY'' (PString ''open'');
               top_boundary_type = get_default param_dict ''TOP_BOUNDARY'' (PString ''open'');
               bottom_boundary_type = get_default param_dict ''BOTTOM_BOUNDARY'' (PString ''open'')
           in
           then_do (is_closed_boundary bottom_boundary_type) (\<lambda>bottom.
           then_do (is_closed_boundary right_boundary_type) (\<lambda>right.
           then_do (is_closed_boundary top_boundary_type) (\<lambda>top.
           then_do (is_closed_boundary left_boundary_type) (\<lambda>left.
             case mg of
               None \<Rightarrow> Inl AttributeError
             | Some g \<Rightarrow>
                 then_do (set_inactive_boundaries g bottom right top left)
                   (\<lambda>g'. Inr ([], Some g'))))))))))
       else Inr ([''Non-raster grids not yet available in ModelGrid''], None))"

text \<open>A configuration that asks for a hexagonal grid.\<close>

definition hex_config :: param_dict where
  "hex_config = [''GRID_TYPE'' \<mapsto> PString ''hex'', ''NUM_ROWS'' \<mapsto> PInt 3]"

text \<open>The configuration of the doctest: a 4 by 5 raster grid with spacing 2.5.\<close>

definition raster_config :: param_dict where
  "raster_config =
     [''GRID_TYPE'' \<mapsto> PString ''raster'', ''NUM_ROWS'' \<mapsto> PInt 4, ''NUM_COLS'' \<mapsto> PInt 5,
      ''GRID_SPACING'' \<mapsto> PFloat 2.5]"

section \<open>Auxiliary notions\<close>

text \<open>
  Element \<open>j\<close> of \<open>count_repeated_values x\<close>, and the row that the matrix setup derives
  from it: slot \<open>j\<close> of node \<open>n\<close> holds the position of the \<open>(j+1)\<close>-th occurrence of \<open>n\<close>
  in \<open>x\<close>, or \<open>-1\<close> when \<open>n\<close> occurs at most \<open>j\<close> times.
\<close>

definition level :: "nat list \<Rightarrow> nat \<Rightarrow> nat list \<times> nat list" where
  "level x j = (let vs = filter (\<lambda>v. j < count_list x v) (sort (remdups x))
              in (vs, map (\<lambda>v. occurrences x v ! j) vs))"

definition slot_row :: "nat list \<Rightarrow> nat \<Rightarrow> nat \<Rightarrow> int list" where
  "slot_row x N j =
     map (\<lambda>n. if j < count_list x n then int (occurrences x n ! j) else - 1) [0..<N]"

text \<open>The activation rule on a link of the default raster grid, given by its node pair.\<close>

definition raster_link_active :: "nat \<Rightarrow> nat \<Rightarrow> nat \<times> nat \<Rightarrow> bool" where
  "raster_link_active R C p =
     link_is_active (sgrid_node_status R C ! fst p) (sgrid_node_status R C ! snd p)"







text \<open>
  Every active link has a face with a width, and every active cell that a node refers to
  has an area: what the generic flux-divergence operator reads.
\<close>

definition faces_valid :: "grid \<Rightarrow> bool" where
  "faces_valid g \<longleftrightarrow>
     list_all (\<lambda>l. l < length (link_face g) \<and>
                   (case link_face g ! l of None \<Rightarrow> False
                    | Some f \<Rightarrow> f < length (face_width g))) (active_links g)"

definition cells_valid :: "grid \<Rightarrow> bool" where
  "cells_valid g \<longleftrightarrow>
     length (node_activecell g) = num_nodes g \<and>
     list_all (\<lambda>c. case c of None \<Rightarrow> True | Some c \<Rightarrow> c < length (active_cell_areas g))
       (node_activecell g)"

text \<open>The entries of an array of net fluxes at the nodes without an active cell are zero.\<close>

definition zero_without_cell :: "grid \<Rightarrow> real list \<Rightarrow> bool" where
  "zero_without_cell g net \<longleftrightarrow>
     length net = num_nodes g \<and>
     (\<forall>n<num_nodes g. node_activecell g ! n = BAD_INDEX_VALUE \<longrightarrow> net ! n = 0)"

text \<open>
  The sum of \<open>q j\<close> over the first \<open>k\<close> active links \<open>j\<close> whose end node, read from the
  array \<open>x\<close> of from-nodes or to-nodes, is \<open>n\<close>.
\<close>

definition link_sum :: "nat list \<Rightarrow> (nat \<Rightarrow> real) \<Rightarrow> nat \<Rightarrow> nat \<Rightarrow> real" where
  "link_sum x q k n = sum_list (map q (filter (\<lambda>j. x ! j = n) [0..<k]))"

section \<open>Properties\<close>






lemma initialize_3x3: "initialize 3 3 1 = Inr raster_3x3"
  by code_simp














lemma div_mod_bound: "C > 0 \<Longrightarrow> n < R * C \<Longrightarrow> n div C < (R::nat)"
  by (simp add: less_mult_imp_div_less)













subsection \<open>The active inlink and outlink matrices\<close>

lemma fold_max_le: "fold max ys (a::nat) \<le> b \<longleftrightarrow> a \<le> b \<and> (\<forall>y\<in>set ys. y \<le> b)"
  by (induction ys arbitrary: a) auto

lemma fold_update_pairs_length:
  "length (fold (\<lambda>(n, i) r. r[n := int i]) ps row) = length row"
  by (induction ps arbitrary: row) auto

lemma fold_update_pairs_nth:
  "list_all (\<lambda>n. n < length row) vs \<Longrightarrow> n < length row \<Longrightarrow>
   fold (\<lambda>(n, i) r. r[n := int i]) (zip vs (map f vs)) row ! n =
     (if n \<in> set vs then int (f n) else row ! n)"
proof (induction vs arbitrary: row)
  case Nil
  then show ?case by simp
next
  case (Cons v vs)
  have "list_all (\<lambda>n. n < length (row[v := int (f v)])) vs" using Cons.prems by simp
  from Cons.IH[OF this] Cons.prems show ?case
    by (auto simp: nth_list_update)
qed

lemma index_assign_level:
  "index_assign (replicate N (- 1)) (fst (level x j)) (snd (level x j)) =
     (if \<forall>v\<in>set x. j < count_list x v \<longrightarrow> v < N
      then Inr (map (\<lambda>n. if j < count_list x n then int (occurrences x n ! j) else - 1) [0..<N])
      else Inl IndexError)"
proof -
  define vs where "vs = filter (\<lambda>v. j < count_list x v) (sort (remdups x))"
  have lv: "level x j = (vs, map (\<lambda>v. occurrences x v ! j) vs)"
    by (simp add: level_def vs_def Let_def)
  have mem: "n \<in> set vs \<longleftrightarrow> j < count_list x n" for n
    by (cases "n \<in> set x") (auto simp: vs_def count_notin)
  show ?thesis
  proof (cases "\<forall>v\<in>set x. j < count_list x v \<longrightarrow> v < N")
    case True
    then have all: "list_all (\<lambda>n. n < length (replicate N (- 1 :: int))) vs"
      by (auto simp: list_all_iff vs_def)
    have "fold (\<lambda>(n, i) r. r[n := int i]) (zip vs (map (\<lambda>v. occurrences x v ! j) vs))
            (replicate N (- 1)) =
          map (\<lambda>n. if j < count_list x n then int (occurrences x n ! j) else - 1) [0..<N]"
      by (rule nth_equalityI)
        (use fold_update_pairs_nth[OF all] mem in \<open>auto simp: fold_update_pairs_length\<close>)
    with True all show ?thesis by (simp add: index_assign_def lv)
  next
    case False
    then have "\<not> list_all (\<lambda>n. n < length (replicate N (- 1 :: int))) vs"
      by (auto simp: list_all_iff vs_def)
    with False show ?thesis by (simp add: index_assign_def lv)
  qed
qed

lemma assign_counts_two_rows:
  "assign_counts [r0, r1] 0 (map L [0..<M]) =
    (if M = 0 then Inr [r0, r1]
     else case index_assign r0 (fst (L 0)) (snd (L 0)) of
       Inl e \<Rightarrow> Inl e
     | Inr a \<Rightarrow>
        if M = 1 then Inr [a, r1]
        else case index_assign r1 (fst (L 1)) (snd (L 1)) of
          Inl e \<Rightarrow> Inl e
        | Inr b \<Rightarrow> if M = 2 then Inr [a, b] else Inl IndexError)"
proof -
  consider "M = 0" | "M = 1" | "M = 2" | "3 \<le> M"
    by linarith
  then show ?thesis
  proof cases
    case 1
    then show ?thesis by simp
  next
    case 2
    then show ?thesis
      by (cases "L 0") (simp split: sum.splits)
  next
    case 3
    have "[0..<M] = [0, Suc 0]" unfolding 3 by (simp add: numeral_2_eq_2)
    then show ?thesis using 3
      by (cases "L 0"; cases "L 1") (simp split: sum.splits)
  next
    case 4
    have a: "[0..<M] = 0 # [Suc 0..<M]" using 4 by (intro upt_conv_Cons) simp
    have b: "[Suc 0..<M] = Suc 0 # [Suc (Suc 0)..<M]" using 4 by (intro upt_conv_Cons) simp
    have c: "[Suc (Suc 0)..<M] = Suc (Suc 0) # [Suc (Suc (Suc 0))..<M]"
      using 4 by (intro upt_conv_Cons) simp
    have M: "M \<noteq> 0" "M \<noteq> Suc 0" "M \<noteq> 2" using 4 by simp_all
    show ?thesis unfolding a b c
      by (cases "L 0"; cases "L 1"; cases "L (Suc (Suc 0))") (simp add: M split: sum.splits)
  qed
qed

lemma count_repeated_values_level:
  "count_repeated_values x = map (level x) [0..<fold max (map (count_list x) x) 0]"
  by (simp add: count_repeated_values_def level_def)

lemma slot_row_blank:
  "\<forall>v\<in>set x. count_list x v \<le> j \<Longrightarrow> slot_row x N j = replicate N (- 1)"
proof -
  assume a: "\<forall>v\<in>set x. count_list x v \<le> j"
  have "\<not> j < count_list x n" for n
    using a by (cases "n \<in> set x") (auto simp: count_notin not_less)
  then show ?thesis
    by (simp add: slot_row_def map_replicate_const)
qed

lemma assign_counts_fast:
  "assign_counts (replicate 2 (replicate N (- 1))) 0 (count_repeated_values x) =
    (if \<forall>v\<in>set x. v < N \<and> count_list x v \<le> 2
     then Inr [slot_row x N 0, slot_row x N 1] else Inl IndexError)"
proof -
  define M where "M = fold max (map (count_list x) x) 0"
  have Mle: "M \<le> b \<longleftrightarrow> (\<forall>v\<in>set x. count_list x v \<le> b)" for b
    unfolding M_def by (simp add: fold_max_le)
  have pos: "v \<in> set x \<Longrightarrow> 0 < count_list x v" for v
    by (induction x) auto
  have r2: "replicate 2 (replicate N (- 1 :: int)) = [replicate N (- 1), replicate N (- 1)]"
    by (simp add: numeral_2_eq_2)
  have lv0: "index_assign (replicate N (- 1)) (fst (level x 0)) (snd (level x 0)) =
     (if \<forall>v\<in>set x. v < N then Inr (slot_row x N 0) else Inl IndexError)"
    unfolding index_assign_level slot_row_def using pos by auto
  have lv1: "index_assign (replicate N (- 1)) (fst (level x 1)) (snd (level x 1)) =
     (if \<forall>v\<in>set x. 1 < count_list x v \<longrightarrow> v < N then Inr (slot_row x N 1) else Inl IndexError)"
    unfolding index_assign_level slot_row_def by simp
  consider "M = 0" | "M = 1" | "M = 2" | "3 \<le> M"
    by linarith
  then show ?thesis
  proof cases
    case 1
    then have "\<forall>v\<in>set x. count_list x v \<le> 0" using Mle[of 0] by simp
    then have "x = []" using pos by (cases x) auto
    then show ?thesis
      unfolding count_repeated_values_level M_def[symmetric] r2 assign_counts_two_rows
      using 1 by (simp add: slot_row_def map_replicate_const)
  next
    case 2
    then have le1: "\<forall>v\<in>set x. count_list x v \<le> 1" using Mle[of 1] by simp
    then have le2: "\<forall>v\<in>set x. count_list x v \<le> 2" by auto
    show ?thesis
      unfolding count_repeated_values_level M_def[symmetric] r2 assign_counts_two_rows lv0
      using 2 le2 slot_row_blank[OF le1, of N] by auto
  next
    case 3
    then have le2: "\<forall>v\<in>set x. count_list x v \<le> 2" using Mle[of 2] by simp
    show ?thesis
      unfolding count_repeated_values_level M_def[symmetric] r2 assign_counts_two_rows lv0 lv1
      using 3 le2 by auto
  next
    case 4
    then have "\<not> (\<forall>v\<in>set x. count_list x v \<le> 2)" using Mle[of 2] by simp
    then show ?thesis
      unfolding count_repeated_values_level M_def[symmetric] r2 assign_counts_two_rows lv0 lv1
      using 4 by auto
  qed
qed

subsection \<open>The raster builder\<close>

subsection \<open>Index lists\<close>

lemma filter_nth_upt:
  "map (\<lambda>i. xs ! i) (filter (\<lambda>i. Q (xs ! i)) [0..<length xs]) = filter Q xs"
proof (induction xs rule: rev_induct)
  case Nil
  then show ?case by simp
next
  case (snoc a xs)
  have "map (\<lambda>i. (xs @ [a]) ! i) (filter (\<lambda>i. Q ((xs @ [a]) ! i)) [0..<length xs]) =
        map (\<lambda>i. xs ! i) (filter (\<lambda>i. Q (xs ! i)) [0..<length xs])"
    by (intro map_cong filter_cong) (auto simp: nth_append)
  then show ?case using snoc by simp
qed

lemma length_filter_nth_upt:
  "length (filter (\<lambda>i. Q (xs ! i)) [0..<length xs]) = length (filter Q xs)"
  using filter_nth_upt[of xs Q] by (metis length_map)

lemma count_list_filter: "count_list xs v = length (filter (\<lambda>a. a = v) xs)"
  by (induction xs) auto

lemma length_occurrences: "length (occurrences x v) = count_list x v"
  unfolding occurrences_def count_list_filter
  by (rule length_filter_nth_upt)

lemma count_list_sub:
  "count_list (map (\<lambda>i. xs ! i) (filter P [0..<length xs])) v \<le> count_list xs (v::nat)"
proof -
  have "count_list (map (\<lambda>i. xs ! i) ys) v = length (filter (\<lambda>i. xs ! i = v) ys)" for ys
    by (induction ys) auto
  then have "count_list (map (\<lambda>i. xs ! i) (filter P [0..<length xs])) v =
        length (filter (\<lambda>i. xs ! i = v) (filter P [0..<length xs]))"
    by blast
  also have "\<dots> = length (filter P (filter (\<lambda>i. xs ! i = v) [0..<length xs]))"
    by (simp add: conj_commute)
  also have "\<dots> \<le> length (filter (\<lambda>i. xs ! i = v) [0..<length xs])"
    by (rule length_filter_le)
  also have "\<dots> = count_list xs v"
    using length_occurrences[of xs v] by (simp add: occurrences_def)
  finally show ?thesis .
qed

lemma distinct_count_le_1: "distinct xs \<Longrightarrow> count_list xs v \<le> 1"
  by (induction xs) auto

subsection \<open>Nested loops as products\<close>

lemma concat_map_product:
  "concat (map (\<lambda>r. map (\<lambda>c. f r c) cs) rs) = map (\<lambda>(r, c). f r c) (List.product rs cs)"
  by (induction rs) simp_all

lemma length_filter_product_snd:
  "length (filter (\<lambda>(r, c). P c) (List.product rs cs)) = length rs * length (filter P cs)"
  by (induction rs) (simp_all add: filter_map comp_def)

lemma length_filter_product_fst:
  "length (filter (\<lambda>(r, c). P r) (List.product rs cs)) = length (filter P rs) * length cs"
  by (induction rs) (simp_all add: filter_map comp_def)

lemma length_filter_inner: "length (filter (\<lambda>c. 1 \<le> c \<and> c \<le> n - 2) [0..<n]) = n - 2"
proof -
  have "length (filter (\<lambda>c. 1 \<le> c \<and> c \<le> n - 2) [0..<n]) =
        card {i. i < n \<and> 1 \<le> i \<and> i \<le> n - 2}"
    by (simp add: length_filter_conv_card cong: conj_cong)
  also have "{i. i < n \<and> 1 \<le> i \<and> i \<le> n - 2} = {1..n - 2}"
    by auto
  finally show ?thesis by simp
qed

subsection \<open>The raster link lists\<close>

lemma cell_lt: "c < C \<Longrightarrow> r < R \<Longrightarrow> c + r * C < R * (C::nat)"
proof -
  assume c: "c < C" and r: "r < R"
  have "c + r * C < C + r * C" using c by simp
  also have "\<dots> = Suc r * C" by simp
  also have "\<dots> \<le> R * C" using r by (intro mult_le_mono1) simp
  finally show ?thesis .
qed

lemma cell_div_mod:
  "c < C \<Longrightarrow> (c + r * C) div C = (r::nat)" "c < C \<Longrightarrow> (c + r * C) mod C = c"
  by simp_all

lemma vertical_links_product:
  "vertical_links R C =
     map (\<lambda>(r, c). (c + r * C, c + (r + 1) * C)) (List.product [0..<R - 1] [0..<C])"
  unfolding vertical_links_def by (rule concat_map_product)

lemma horizontal_links_product:
  "horizontal_links R C =
     map (\<lambda>(r, c). (c + r * C, c + r * C + 1)) (List.product [0..<R] [0..<C - 1])"
  unfolding horizontal_links_def by (rule concat_map_product)

lemma length_vertical_links: "length (vertical_links R C) = (R - 1) * C"
  by (simp add: vertical_links_product)

lemma length_horizontal_links: "length (horizontal_links R C) = R * (C - 1)"
  by (simp add: horizontal_links_product)

lemma inj_cell:
  assumes "c < C" "c' < C" "c + r * C = c' + r' * (C::nat)"
  shows "r = r' \<and> c = c'"
  using cell_div_mod[OF assms(1), of r] cell_div_mod[OF assms(2), of r'] assms(3) by simp

lemma distinct_vertical_fst: "distinct (map fst (vertical_links R C))"
proof -
  have "inj_on (\<lambda>(r, c). c + r * C) (set (List.product [0..<R - 1] [0..<C]))"
    by (auto simp: inj_on_def dest: inj_cell)
  then show ?thesis
    by (simp add: vertical_links_product comp_def case_prod_unfold distinct_map distinct_product)
qed

lemma distinct_vertical_snd: "distinct (map snd (vertical_links R C))"
proof -
  have "inj_on (\<lambda>(r, c). c + Suc r * C) (set (List.product [0..<R - 1] [0..<C]))"
    unfolding inj_on_def
  proof (clarify)
    fix r c r' c'
    assume "(r, c) \<in> set (List.product [0..<R - 1] [0..<C])"
      "(r', c') \<in> set (List.product [0..<R - 1] [0..<C])"
      "c + Suc r * C = c' + Suc r' * C"
    then have "c < C" "c' < C" "c + Suc r * C = c' + Suc r' * C" by auto
    from inj_cell[OF this] show "r = r' \<and> c = c'" by simp
  qed
  then show ?thesis
    by (simp add: vertical_links_product comp_def case_prod_unfold distinct_map distinct_product)
qed

lemma distinct_horizontal_fst: "distinct (map fst (horizontal_links R C))"
proof -
  have "inj_on (\<lambda>(r, c). c + r * C) (set (List.product [0..<R] [0..<C - 1]))"
    unfolding inj_on_def
  proof (clarify)
    fix r c r' c'
    assume "(r, c) \<in> set (List.product [0..<R] [0..<C - 1])"
      "(r', c') \<in> set (List.product [0..<R] [0..<C - 1])"
      "c + r * C = c' + r' * C"
    then have "c < C" "c' < C" "c + r * C = c' + r' * C" by auto
    from inj_cell[OF this] show "r = r' \<and> c = c'" by simp
  qed
  then show ?thesis
    by (simp add: horizontal_links_product comp_def case_prod_unfold distinct_map distinct_product)
qed

lemma distinct_horizontal_snd: "distinct (map snd (horizontal_links R C))"
proof -
  have "inj_on (\<lambda>(r, c). Suc c + r * C) (set (List.product [0..<R] [0..<C - 1]))"
    unfolding inj_on_def
  proof (clarify)
    fix r c r' c'
    assume "(r, c) \<in> set (List.product [0..<R] [0..<C - 1])"
      "(r', c') \<in> set (List.product [0..<R] [0..<C - 1])"
      "Suc c + r * C = Suc c' + r' * C"
    then have "Suc c < C" "Suc c' < C" "Suc c + r * C = Suc c' + r' * C" by auto
    from inj_cell[OF this] show "r = r' \<and> c = c'" by simp
  qed
  then show ?thesis
    by (simp add: horizontal_links_product comp_def case_prod_unfold distinct_map distinct_product)
qed

lemma raster_links_count:
  "count_list (map fst (vertical_links R C @ horizontal_links R C)) v \<le> 2"
  "count_list (map snd (vertical_links R C @ horizontal_links R C)) v \<le> 2"
  using distinct_count_le_1[OF distinct_vertical_fst, of R C v]
    distinct_count_le_1[OF distinct_horizontal_fst, of R C v]
    distinct_count_le_1[OF distinct_vertical_snd, of R C v]
    distinct_count_le_1[OF distinct_horizontal_snd, of R C v]
  by simp_all

lemma raster_links_in_range:
  assumes "p \<in> set (vertical_links R C @ horizontal_links R C)"
  shows "fst p < R * C \<and> snd p < R * C"
proof -
  from assms consider r c where "r < R - 1" "c < C" "p = (c + r * C, c + (r + 1) * C)"
    | r c where "r < R" "c < C - 1" "p = (c + r * C, c + r * C + 1)"
    by (auto simp: vertical_links_product horizontal_links_product)
  then show ?thesis
  proof cases
    case 1
    then show ?thesis using cell_lt[of c C r R] cell_lt[of c C "r + 1" R] by simp
  next
    case 2
    then show ?thesis using cell_lt[of c C r R] cell_lt[of "c + 1" C r R] by simp
  qed
qed

lemma sgrid_node_status_nth:
  assumes "c < C" "r < R"
  shows "sgrid_node_status R C ! (c + r * C) =
     (if r = 0 \<or> r = R - 1 \<or> c = 0 \<or> c = C - 1 then FIXED_VALUE_BOUNDARY else INTERIOR_NODE)"
  using cell_lt[OF assms] assms(1)
  by (simp add: sgrid_node_status_def is_perimeter_def)

lemma length_sgrid_node_status: "length (sgrid_node_status R C) = R * C"
  by (simp add: sgrid_node_status_def)

lemma vertical_active:
  assumes "3 \<le> R" "r < R - 1" "c < C"
  shows "raster_link_active R C (c + r * C, c + (r + 1) * C) \<longleftrightarrow> 1 \<le> c \<and> c \<le> C - 2"
proof -
  have r: "r < R" "r + 1 < R" using assms by simp_all
  show ?thesis
    unfolding raster_link_active_def fst_conv snd_conv
      sgrid_node_status_nth[OF assms(3) r(1)] sgrid_node_status_nth[OF assms(3) r(2)]
    using assms by (auto simp: link_is_active_def)
qed

lemma horizontal_active:
  assumes "3 \<le> C" "r < R" "c < C - 1"
  shows "raster_link_active R C (c + r * C, c + r * C + 1) \<longleftrightarrow> 1 \<le> r \<and> r \<le> R - 2"
proof -
  have c: "c < C" "c + 1 < C" using assms by simp_all
  have e: "c + r * C + 1 = (c + 1) + r * C" by simp
  show ?thesis
    unfolding raster_link_active_def fst_conv snd_conv e
      sgrid_node_status_nth[OF c(1) assms(2)] sgrid_node_status_nth[OF c(2) assms(2)]
    using assms by (auto simp: link_is_active_def)
qed

lemma count_vertical_active:
  assumes "3 \<le> R"
  shows "length (filter (raster_link_active R C) (vertical_links R C)) = (R - 1) * (C - 2)"
proof -
  have "filter (raster_link_active R C \<circ> (\<lambda>(r, c). (c + r * C, c + (r + 1) * C)))
          (List.product [0..<R - 1] [0..<C]) =
        filter (\<lambda>(r, c). 1 \<le> c \<and> c \<le> C - 2) (List.product [0..<R - 1] [0..<C])"
  proof (rule filter_cong[OF refl])
    fix x assume "x \<in> set (List.product [0..<R - 1] [0..<C])"
    then obtain r c where x: "x = (r, c)" and rc: "r < R - 1" "c < C" by auto
    show "(raster_link_active R C \<circ> (\<lambda>(r, c). (c + r * C, c + (r + 1) * C))) x =
          (case x of (r, c) \<Rightarrow> 1 \<le> c \<and> c \<le> C - 2)"
      unfolding x comp_def prod.case by (rule vertical_active[OF assms rc])
  qed
  then show ?thesis
    using length_filter_inner[of C]
    by (simp add: vertical_links_product filter_map length_filter_product_snd)
qed

lemma count_horizontal_active:
  assumes "3 \<le> C"
  shows "length (filter (raster_link_active R C) (horizontal_links R C)) = (R - 2) * (C - 1)"
proof -
  have "filter (raster_link_active R C \<circ> (\<lambda>(r, c). (c + r * C, c + r * C + 1)))
          (List.product [0..<R] [0..<C - 1]) =
        filter (\<lambda>(r, c). 1 \<le> r \<and> r \<le> R - 2) (List.product [0..<R] [0..<C - 1])"
  proof (rule filter_cong[OF refl])
    fix x assume "x \<in> set (List.product [0..<R] [0..<C - 1])"
    then obtain r c where x: "x = (r, c)" and rc: "r < R" "c < C - 1" by auto
    show "(raster_link_active R C \<circ> (\<lambda>(r, c). (c + r * C, c + r * C + 1))) x =
          (case x of (r, c) \<Rightarrow> 1 \<le> r \<and> r \<le> R - 2)"
      unfolding x comp_def prod.case by (rule horizontal_active[OF assms rc])
  qed
  then show ?thesis
    using length_filter_inner[of R]
    by (simp add: horizontal_links_product filter_map length_filter_product_fst)
qed

lemma count_raster_active:
  assumes "3 \<le> R" "3 \<le> C"
  shows "length (filter (raster_link_active R C) (vertical_links R C @ horizontal_links R C)) =
     (R - 1) * (C - 2) + (R - 2) * (C - 1)"
  by (simp add: count_vertical_active[OF assms(1)] count_horizontal_active[OF assms(2)])

lemma setup_active_success:
  assumes "\<forall>v\<in>set (activelink_tonode g). v < num_nodes g \<and> count_list (activelink_tonode g) v \<le> 2"
    and "\<forall>v\<in>set (activelink_fromnode g). v < num_nodes g \<and> count_list (activelink_fromnode g) v \<le> 2"
  shows "setup_active_inlink_and_outlink_matrices g =
     Inr (g\<lparr>node_active_inlink_matrix :=
              [slot_row (activelink_tonode g) (num_nodes g) 0,
               slot_row (activelink_tonode g) (num_nodes g) 1],
            node_active_outlink_matrix :=
              [slot_row (activelink_fromnode g) (num_nodes g) 0,
               slot_row (activelink_fromnode g) (num_nodes g) 1],
            node_numactiveinlink := bincount (activelink_tonode g) (num_nodes g),
            node_numactiveoutlink := bincount (activelink_fromnode g) (num_nodes g)\<rparr>)"
  unfolding setup_active_inlink_and_outlink_matrices_def Let_def assign_counts_fast
  using assms by simp

lemma reset_eq_setup:
  assumes len: "length (link_fromnode g) = length (link_tonode g)"
    and f: "list_all (\<lambda>i. i < length (node_status g)) (link_fromnode g)"
    and t: "list_all (\<lambda>i. i < length (node_status g)) (link_tonode g)"
  defines "al \<equiv> filter (\<lambda>l. link_is_active (node_status g ! (link_fromnode g ! l))
                                 (node_status g ! (link_tonode g ! l)))
            [0..<length (link_fromnode g)]"
  shows "reset_list_of_active_links g =
     setup_active_inlink_and_outlink_matrices
          (g\<lparr>active_links := al, num_active_links := length al,
             activelink_fromnode := map (\<lambda>i. link_fromnode g ! i) al,
             activelink_tonode := map (\<lambda>i. link_tonode g ! i) al\<rparr>)"
proof -
  define fs where "fs = map (\<lambda>i. node_status g ! i) (link_fromnode g)"
  define ts where "ts = map (\<lambda>i. node_status g ! i) (link_tonode g)"
  have a: "np_where (map (\<lambda>(f, t). link_is_active f t) (zip fs ts)) = al"
    unfolding np_where_def fs_def ts_def al_def using len
    by (auto intro!: filter_cong)
  have b: "list_all (\<lambda>i. i < length (link_fromnode g)) al"
    "list_all (\<lambda>i. i < length (link_tonode g)) al"
    using len by (auto simp: al_def list_all_iff)
  have c: "broadcast2 fs ts = Inr (zip fs ts)"
    using len by (simp add: broadcast2_def fs_def ts_def)
  have d: "take_idx (node_status g) (link_fromnode g) = Inr fs"
    "take_idx (node_status g) (link_tonode g) = Inr ts"
    using f t by (simp_all add: take_idx_def fs_def ts_def)
  have e: "take_idx (link_fromnode g) al = Inr (map (\<lambda>i. link_fromnode g ! i) al)"
    "take_idx (link_tonode g) al = Inr (map (\<lambda>i. link_tonode g ! i) al)"
    using b by (simp_all add: take_idx_def)
  show ?thesis
    unfolding reset_list_of_active_links_def
    by (simp add: c d a e Let_def)
qed

text \<open>
  Claim C1. A raster grid built with \<open>R\<close> rows and \<open>C\<close> columns, both at least 3, and
  any spacing stores \<open>num_nodes = R * C\<close>, \<open>num_cells = (R - 2) * (C - 2)\<close>,
  \<open>num_links = C * (R - 1) + R * (C - 1)\<close> and, once the active links have been derived
  from the default fully-open boundary,
  \<open>num_active_links = num_links - 2 * (C - 1) - 2 * (R - 1)\<close>; the stored counts are the
  lengths of the status, link and active-link arrays. The counts are integers, so the
  subtractions are exact.
\<close>

theorem raster_grid_counts:
  assumes R: "3 \<le> R" and C: "3 \<le> C"
  shows "\<exists>g. initialize R C dx0 = Inr g \<and>
     int (num_nodes g) = R * C \<and>
     int (num_cells g) = (R - 2) * (C - 2) \<and>
     int (num_links g) = C * (R - 1) + R * (C - 1) \<and>
     int (num_active_links g) = int (num_links g) - 2 * (C - 1) - 2 * (R - 1) \<and>
     length (node_status g) = num_nodes g \<and>
     length (link_fromnode g) = num_links g \<and>
     length (link_tonode g) = num_links g \<and>
     length (active_links g) = num_active_links g"
proof -
  define r c where "r = nat R" and "c = nat C"
  have r: "3 \<le> r" "R = int r" and c: "3 \<le> c" "C = int c"
    using R C by (simp_all add: r_def c_def)
  define links where "links = vertical_links r c @ horizontal_links r c"
  define nlinks where "nlinks = nat (C * (R - 1) + R * (C - 1))"
  define g0 where "g0 =
     \<lparr>nrows = r, ncols = c, dx = dx0, cellarea = dx0 * dx0,
      num_nodes = nat (R * C),
      num_cells = nat ((R - 2) * (C - 2)),
      num_active_cells = nat ((R - 2) * (C - 2)),
      num_links = nlinks,
      num_active_links = nat (int nlinks - (2 * (C - 1) + 2 * (R - 1))),
      num_faces = nat ((R - 1) * (C - 2) + (R - 2) * (C - 1)),
      node_status = sgrid_node_status r c,
      cell_node = sgrid_cell_node_index r c,
      node_activecell = sgrid_node_active_cell r c,
      activecell_node = sgrid_cell_node_index r c,
      link_fromnode = map fst links,
      link_tonode = map snd links,
      active_links = [], activelink_fromnode = [], activelink_tonode = [],
      node_numactiveinlink = [], node_numactiveoutlink = [],
      node_active_inlink_matrix = [], node_active_outlink_matrix = [],
      link_face = [], link_length = [], face_width = [], active_cell_areas = []\<rparr>"
  have init: "initialize R C dx0 =
     then_do (reset_list_of_active_links g0)
       (\<lambda>g. Inr (g\<lparr>link_face := link_faces (num_links g) (active_links g)\<rparr>))"
  proof -
    have m: "\<not> min R C < 3" using R C by simp
    show ?thesis
      unfolding initialize_def Let_def g0_def links_def nlinks_def r_def c_def
      by (simp only: m if_False map_append)
  qed
  have g0: "node_status g0 = sgrid_node_status r c" "link_fromnode g0 = map fst links"
    "link_tonode g0 = map snd links" "num_nodes g0 = nat (R * C)" "num_links g0 = nlinks"
    "num_cells g0 = nat ((R - 2) * (C - 2))"
    by (simp_all add: g0_def)
  have nn: "nat (R * C) = r * c"
    by (simp add: r(2) c(2) flip: of_nat_mult)
  have rng: "fst p < r * c \<and> snd p < r * c" if "p \<in> set links" for p
    using raster_links_in_range[of p r c] that by (simp add: links_def)
  have len: "length (link_fromnode g0) = length (link_tonode g0)"
    by (simp add: g0)
  have f: "list_all (\<lambda>i. i < length (node_status g0)) (link_fromnode g0)"
    and t: "list_all (\<lambda>i. i < length (node_status g0)) (link_tonode g0)"
    using rng by (auto simp: g0 length_sgrid_node_status list_all_iff)
  define al where "al = filter (\<lambda>l. link_is_active (node_status g0 ! (link_fromnode g0 ! l))
                                 (node_status g0 ! (link_tonode g0 ! l)))
            [0..<length (link_fromnode g0)]"
  define g1 where "g1 = g0\<lparr>active_links := al, num_active_links := length al,
             activelink_fromnode := map (\<lambda>i. link_fromnode g0 ! i) al,
             activelink_tonode := map (\<lambda>i. link_tonode g0 ! i) al\<rparr>"
  have reset: "reset_list_of_active_links g0 = setup_active_inlink_and_outlink_matrices g1"
    unfolding g1_def al_def by (rule reset_eq_setup[OF len f t])
  have g1: "activelink_tonode g1 = map (\<lambda>i. map snd links ! i) al"
    "activelink_fromnode g1 = map (\<lambda>i. map fst links ! i) al"
    "num_nodes g1 = r * c"
    by (simp_all add: g1_def g0 nn)
  have al_sub: "al = filter (\<lambda>l. raster_link_active r c (links ! l)) [0..<length links]"
    unfolding al_def g0 raster_link_active_def
    by (auto intro!: filter_cong)
  have to_ok: "\<forall>v\<in>set (activelink_tonode g1).
      v < num_nodes g1 \<and> count_list (activelink_tonode g1) v \<le> 2"
  proof
    fix v assume "v \<in> set (activelink_tonode g1)"
    then obtain l where "l < length links" "v = snd (links ! l)"
      by (auto simp: g1 al_sub)
    then have "v < r * c" using rng[of "links ! l"] by simp
    moreover have "count_list (activelink_tonode g1) v \<le> count_list (map snd links) v"
      unfolding g1 al_sub using count_list_sub[of "map snd links" _ v] by simp
    moreover have "count_list (map snd links) v \<le> 2"
      unfolding links_def by (rule raster_links_count)
    ultimately show "v < num_nodes g1 \<and> count_list (activelink_tonode g1) v \<le> 2"
      by (simp add: g1)
  qed
  have from_ok: "\<forall>v\<in>set (activelink_fromnode g1).
      v < num_nodes g1 \<and> count_list (activelink_fromnode g1) v \<le> 2"
  proof
    fix v assume "v \<in> set (activelink_fromnode g1)"
    then obtain l where "l < length links" "v = fst (links ! l)"
      by (auto simp: g1 al_sub)
    then have "v < r * c" using rng[of "links ! l"] by simp
    moreover have "count_list (activelink_fromnode g1) v \<le> count_list (map fst links) v"
      unfolding g1 al_sub using count_list_sub[of "map fst links" _ v] by simp
    moreover have "count_list (map fst links) v \<le> 2"
      unfolding links_def by (rule raster_links_count)
    ultimately show "v < num_nodes g1 \<and> count_list (activelink_fromnode g1) v \<le> 2"
      by (simp add: g1)
  qed
  note s = setup_active_success[OF to_ok from_ok]
  have nal: "length al = (r - 1) * (c - 2) + (r - 2) * (c - 1)"
    unfolding al_sub length_filter_nth_upt links_def
    by (rule count_raster_active[OF r(1) c(1)])
  have nl: "length links = (r - 1) * c + r * (c - 1)"
    by (simp add: links_def length_vertical_links length_horizontal_links)
  define r2 c2 where "r2 = r - 2" and "c2 = c - 2"
  have rc2: "r = r2 + 2" "c = c2 + 2"
    using r(1) c(1) by (simp_all add: r2_def c2_def)
  have d: "r - 1 = r2 + 1" "r - 2 = r2" "c - 1 = c2 + 1" "c - 2 = c2"
    by (simp_all add: rc2)
  have D: "R - 1 = int r2 + 1" "R - 2 = int r2" "C - 1 = int c2 + 1" "C - 2 = int c2"
    "R = int r2 + 2" "C = int c2 + 2"
    by (simp_all add: r(2) c(2) rc2)
  have "C * (R - 1) + R * (C - 1) = int ((r - 1) * c + r * (c - 1))"
    unfolding d D(1,3,5,6) by (simp add: rc2 algebra_simps)
  then have nlinks: "nlinks = (r - 1) * c + r * (c - 1)"
    unfolding nlinks_def by (simp only: nat_int)
  have i1: "int (r * c) = R * C" by (simp add: r c)
  have i2: "int (nat ((R - 2) * (C - 2))) = (R - 2) * (C - 2)" unfolding D by simp
  have i3: "int nlinks = C * (R - 1) + R * (C - 1)"
    unfolding nlinks_def D(1,3,5,6) by simp
  have i4: "int (length al) = int nlinks - 2 * (C - 1) - 2 * (R - 1)"
    unfolding i3 nal d D(1,3,5,6) by (simp add: algebra_simps)
  define g2 where "g2 = g1\<lparr>node_active_inlink_matrix :=
              [slot_row (activelink_tonode g1) (num_nodes g1) 0,
               slot_row (activelink_tonode g1) (num_nodes g1) 1],
            node_active_outlink_matrix :=
              [slot_row (activelink_fromnode g1) (num_nodes g1) 0,
               slot_row (activelink_fromnode g1) (num_nodes g1) 1],
            node_numactiveinlink := bincount (activelink_tonode g1) (num_nodes g1),
            node_numactiveoutlink := bincount (activelink_fromnode g1) (num_nodes g1)\<rparr>"
  have res: "initialize R C dx0 =
      Inr (g2\<lparr>link_face := link_faces (num_links g2) (active_links g2)\<rparr>)"
    unfolding init reset s then_do_def g2_def by simp
  have g2: "num_nodes g2 = r * c" "num_cells g2 = nat ((R - 2) * (C - 2))"
    "num_links g2 = nlinks" "num_active_links g2 = length al"
    "node_status g2 = sgrid_node_status r c" "link_fromnode g2 = map fst links"
    "link_tonode g2 = map snd links" "active_links g2 = al"
    by (simp_all add: g2_def g1_def g0 nn)
  have l: "length links = nlinks"
    by (simp add: nl nlinks)
  have nonneg: "0 \<le> (R - 2) * (C - 2)"
    using R C by simp
  show ?thesis
    unfolding res
    by (rule exI[of _ "g2\<lparr>link_face := link_faces (num_links g2) (active_links g2)\<rparr>"])
      (simp add: g2 i1 i3 i4 l nonneg length_sgrid_node_status del: of_nat_mult)
qed

theorem raster_grid_counts_witness:
  "(3::int) \<le> 4 \<and> (3::int) \<le> 5 \<and>
   (\<exists>g. initialize 4 5 1 = Inr g \<and> num_nodes g = 20 \<and> num_cells g = 6 \<and>
        num_links g = 31 \<and> num_active_links g = 17)"
proof -
  have h: "(3::int) \<le> 4" "(3::int) \<le> 5" by simp_all
  from raster_grid_counts[OF h, of 1] obtain g where
    "initialize 4 5 1 = Inr g" "int (num_nodes g) = 4 * 5" "int (num_cells g) = (4 - 2) * (5 - 2)"
    "int (num_links g) = 5 * (4 - 1) + 4 * (5 - 1)"
    "int (num_active_links g) = int (num_links g) - 2 * (5 - 1) - 2 * (4 - 1)"
    by blast
  then have "initialize 4 5 1 = Inr g \<and> num_nodes g = 20 \<and> num_cells g = 6 \<and>
        num_links g = 31 \<and> num_active_links g = 17"
    by simp
  then show ?thesis using h by blast
qed

subsection \<open>The two formulations of the active-link derivation\<close>















lemma set_inactive_raster_3x3_all_closed:
  "set_inactive_boundaries raster_3x3 True True True True = Inr raster_3x3_all_closed"
  by code_simp




subsection \<open>Gradients at active links\<close>







text \<open>
  Claim C10. When the raster gradient operator is given an output buffer and returns,
  the array it returns is a new one: its reference is none of the references that
  existed before the call, in particular not the buffer's, and the buffer, like every
  array that existed before the call, holds what it held before.
\<close>

theorem raster_gradient_leaves_buffer:
  assumes "RasterModelGrid_calculate_gradients_at_active_links g st s (Some b) = Inr (st', r)"
    and "b < length st"
  shows "r \<noteq> b \<and> length st \<le> r \<and> st' ! b = st ! b \<and> take (length st) st' = st"
  using assms
  by (auto simp: RasterModelGrid_calculate_gradients_at_active_links_def then_do_def
      numpy_new_def nth_append split: if_splits sum.splits)

lemma lattice_3x3_valid: "links_valid lattice_3x3" "active_lists_consistent lattice_3x3"
  by code_simp+

lemma lattice_3x3_ModelGrid_gradient:
  "ModelGrid_calculate_gradients_at_active_links lattice_3x3 [0, 1, 2, 3, 4, 5, 6, 7, 8] None =
     Inr [3, 3, 1, 1]"
  by code_simp

lemma lattice_3x3_Raster_gradient:
  "RasterModelGrid_calculate_gradients_at_active_links lattice_3x3 store_3x3 0 (Some 1) =
     Inr ([node_values_3x3, [9, 9, 9, 9], [3, 3, 1, 1]], 2)"
  by code_simp


theorem raster_gradient_leaves_buffer_witness:
  "RasterModelGrid_calculate_gradients_at_active_links lattice_3x3 store_3x3 0 (Some 1) =
     Inr ([node_values_3x3, [9, 9, 9, 9], [3, 3, 1, 1]], 2) \<and>
   (1::nat) < length store_3x3 \<and>
   (2::nat) \<noteq> 1 \<and> length store_3x3 \<le> 2 \<and>
   [node_values_3x3, [9, 9, 9, 9], [3, 3, 1, 1]] ! 1 = store_3x3 ! 1 \<and>
   take (length store_3x3) [node_values_3x3, [9, 9, 9, 9], [3, 3, 1, 1]] = store_3x3"
proof -
  have h: "(1::nat) < length store_3x3" by (simp add: store_3x3_def)
  from raster_gradient_leaves_buffer[OF lattice_3x3_Raster_gradient h]
    lattice_3x3_Raster_gradient h
  show ?thesis by blast
qed

subsection \<open>Building a grid from named settings\<close>

lemma lower_strip_raster: "lower (strip ''raster'') = ''raster''"
  by (simp add: lower_def strip_def is_space_def lower_char_def)

lemma raster_config_builds:
  "map_sum id (\<lambda>(out, mg). (out, map_option num_nodes mg))
     (create_and_initialize_grid raster_config) = Inr ([], Some 20)"
  by (simp add: create_and_initialize_grid_def read_string_def read_int_def read_float_def
      get_default_def raster_config_def) code_simp

text \<open>
  Claim C9, as stated, at a concrete input: the configuration \<open>hex_config\<close> names the
  grid type \<open>hex\<close>, which is not a recognised grid type. The call raises nothing: it
  prints one line and returns \<open>None\<close>.
\<close>

theorem unknown_grid_type_counterexample:
  "create_and_initialize_grid hex_config =
     Inr ([''Non-raster grids not yet available in ModelGrid''], None)"
  by (simp add: create_and_initialize_grid_def read_string_def then_do_def hex_config_def)

text \<open>
  Claim C9, amended: for every configuration whose \<open>GRID_TYPE\<close> is a string that,
  stripped and lower-cased, is not \<open>raster\<close>, \<open>create_and_initialize_grid\<close> raises no
  exception; it prints the line \<open>Non-raster grids not yet available in ModelGrid\<close> and
  returns \<open>None\<close> to the caller.
\<close>

theorem unknown_grid_type_returns_None:
  assumes "param_dict ''GRID_TYPE'' = Some (PString grid_type)"
    and "lower (strip grid_type) \<noteq> ''raster''"
  shows "create_and_initialize_grid param_dict =
     Inr ([''Non-raster grids not yet available in ModelGrid''], None)"
proof -
  have "grid_type \<noteq> ''raster''"
    using assms(2) lower_strip_raster by auto
  then show ?thesis
    using assms(1) by (simp add: create_and_initialize_grid_def read_string_def then_do_def)
qed

theorem unknown_grid_type_returns_None_witness:
  "hex_config ''GRID_TYPE'' = Some (PString ''hex'') \<and>
   lower (strip ''hex'') \<noteq> ''raster'' \<and>
   create_and_initialize_grid hex_config =
     Inr ([''Non-raster grids not yet available in ModelGrid''], None)"
proof -
  have h1: "hex_config ''GRID_TYPE'' = Some (PString ''hex'')"
    by (simp add: hex_config_def)
  have h2: "lower (strip ''hex'') \<noteq> ''raster''"
    by (simp add: lower_def strip_def is_space_def lower_char_def)
  from unknown_grid_type_returns_None[of hex_config "''hex''", OF h1 h2] h1 h2
  show ?thesis by blast
qed

subsection \<open>Flux divergence at nodes without a cell\<close>

lemma then_do_Inr: "then_do (Inr x) f = f x"
  by (simp add: then_do_def)

lemma flux_divergence_body_step:
  assumes l: "l < length (link_fromnode g)" "l < length (link_tonode g)"
      "link_fromnode g ! l < num_nodes g" "link_tonode g ! l < num_nodes g"
      "l < length (link_face g)" "link_face g ! l = Some fc" "fc < length (face_width g)"
    and cv: "cells_valid g"
    and i: "i < length q"
    and z: "zero_without_cell g net"
  shows "\<exists>net'. flux_divergence_body g q l (i, net) = Inr (Suc i, net') \<and>
           zero_without_cell g net'"
proof -
  let ?f = "link_fromnode g ! l" and ?t = "link_tonode g ! l"
  have len: "length net = num_nodes g" using z by (simp add: zero_without_cell_def)
  have nac: "length (node_activecell g) = num_nodes g" using cv by (simp add: cells_valid_def)
  have area: "\<And>n c. n < num_nodes g \<Longrightarrow> node_activecell g ! n = Some c \<Longrightarrow>
      c < length (active_cell_areas g)"
    using cv unfolding cells_valid_def list_all_length by (auto split: option.splits)
  let ?w = "q ! i * face_width g ! fc"
  define net1 where "net1 = (case node_activecell g ! ?f of None \<Rightarrow> net
     | Some c \<Rightarrow> net[?f := net ! ?f + ?w / active_cell_areas g ! c])"
  define net2 where "net2 = (case node_activecell g ! ?t of None \<Rightarrow> net1
     | Some c \<Rightarrow> net1[?t := net1 ! ?t - ?w / active_cell_areas g ! c])"
  have s1: "(case node_activecell g ! ?f of None \<Rightarrow> Inr net
                 | Some c \<Rightarrow>
                     if ?f < length net
                     then then_do (getitem (active_cell_areas g) c)
                            (\<lambda>area. iadd net ?f (?w / area))
                     else Inl IndexError) = Inr net1"
    using l(3) len area[of ?f]
    by (auto simp: net1_def then_do_def getitem_def iadd_def split: option.splits)
  have z1: "zero_without_cell g net1"
    using z l(3) unfolding zero_without_cell_def net1_def BAD_INDEX_VALUE_def
    by (auto split: option.splits simp: nth_list_update)
  then have len1: "length net1 = num_nodes g" by (simp add: zero_without_cell_def)
  have s2: "(case node_activecell g ! ?t of None \<Rightarrow> Inr net1
                 | Some c \<Rightarrow>
                     if ?t < length net1
                     then then_do (getitem (active_cell_areas g) c)
                            (\<lambda>area. isub net1 ?t (?w / area))
                     else Inl IndexError) = Inr net2"
    using l(4) len1 area[of ?t]
    by (auto simp: net2_def then_do_def getitem_def isub_def split: option.splits)
  have z2: "zero_without_cell g net2"
    using z1 l(4) unfolding zero_without_cell_def net2_def BAD_INDEX_VALUE_def
    by (auto split: option.splits simp: nth_list_update)
  have "flux_divergence_body g q l (i, net) = Inr (Suc i, net2)"
    unfolding flux_divergence_body_def
    using l i nac by (simp add: then_do_Inr getitem_def Let_def s1 s2)
  with z2 show ?thesis by blast
qed

lemma flux_divergence_loop:
  assumes "\<forall>l\<in>set ls. l < length (link_fromnode g) \<and> l < length (link_tonode g) \<and>
      link_fromnode g ! l < num_nodes g \<and> link_tonode g ! l < num_nodes g \<and>
      l < length (link_face g) \<and>
      (case link_face g ! l of None \<Rightarrow> False | Some f \<Rightarrow> f < length (face_width g))"
    and "cells_valid g"
    and "i + length ls \<le> length q"
    and "zero_without_cell g net"
  shows "\<exists>net'. for_each (flux_divergence_body g q) ls (i, net) = Inr (i + length ls, net') \<and>
           zero_without_cell g net'"
  using assms(1,3,4)
proof (induction ls arbitrary: i net)
  case Nil
  then show ?case by simp
next
  case (Cons l ls)
  from Cons.prems(1) obtain fc where
    l: "l < length (link_fromnode g)" "l < length (link_tonode g)"
      "link_fromnode g ! l < num_nodes g" "link_tonode g ! l < num_nodes g"
      "l < length (link_face g)" "link_face g ! l = Some fc" "fc < length (face_width g)"
    by (auto split: option.splits)
  have i: "i < length q" using Cons.prems(2) by simp
  from flux_divergence_body_step[OF l assms(2) i Cons.prems(3)] obtain net1 where
    b: "flux_divergence_body g q l (i, net) = Inr (Suc i, net1)" and
    z1: "zero_without_cell g net1" by blast
  have ls: "\<forall>l\<in>set ls. l < length (link_fromnode g) \<and> l < length (link_tonode g) \<and>
      link_fromnode g ! l < num_nodes g \<and> link_tonode g ! l < num_nodes g \<and>
      l < length (link_face g) \<and>
      (case link_face g ! l of None \<Rightarrow> False | Some f \<Rightarrow> f < length (face_width g))"
    using Cons.prems(1) by simp
  have n: "Suc i + length ls \<le> length q" using Cons.prems(2) by simp
  from Cons.IH[OF ls n z1] show ?case
    by (simp add: b)
qed

text \<open>
  Claim C4, amended. The generic operator \<open>ModelGrid.calculate_flux_divergence_at_nodes\<close>,
  on a grid with well-formed link arrays, current active-link arrays, a face width for
  every active link and an area for every active cell, and a flux array with one entry
  per active link, returns an array with one entry per node that is zero at every node
  without an associated active cell.
\<close>

theorem flux_divergence_zero_without_cell:
  assumes lv: "links_valid g" and ac: "active_lists_consistent g"
    and fv: "faces_valid g" and cv: "cells_valid g"
    and len: "length active_link_flux = num_active_links g"
  shows "\<exists>net. ModelGrid_calculate_flux_divergence_at_nodes g active_link_flux = Inr net \<and>
           length net = num_nodes g \<and>
           (\<forall>n<num_nodes g. node_activecell g ! n = BAD_INDEX_VALUE \<longrightarrow> net ! n = 0)"
proof -
  have a: "\<forall>l\<in>set (active_links g). l < length (link_fromnode g) \<and> l < length (link_tonode g) \<and>
      link_fromnode g ! l < num_nodes g \<and> link_tonode g ! l < num_nodes g \<and>
      l < length (link_face g) \<and>
      (case link_face g ! l of None \<Rightarrow> False | Some f \<Rightarrow> f < length (face_width g))"
    using lv ac fv
    by (auto simp: links_valid_def active_lists_consistent_def faces_valid_def list_all_iff
        list_all_length[where xs = "link_fromnode g"] list_all_length[where xs = "link_tonode g"])
  have b: "0 + length (active_links g) \<le> length active_link_flux"
    using ac len by (simp add: active_lists_consistent_def)
  have z: "zero_without_cell g (replicate (num_nodes g) 0)"
    by (simp add: zero_without_cell_def)
  from flux_divergence_loop[OF a cv b z] obtain net where
    "for_each (flux_divergence_body g active_link_flux) (active_links g)
        (0, replicate (num_nodes g) 0) = Inr (0 + length (active_links g), net)"
    and "zero_without_cell g net" by blast
  then show ?thesis
    using len by (simp add: ModelGrid_calculate_flux_divergence_at_nodes_def then_do_def
        zero_without_cell_def)
qed

lemma lattice_flux_valid: "faces_valid lattice_3x3" "cells_valid lattice_3x3"
  by code_simp+

text \<open>
  Claim C4, as stated, at a concrete input: on the 3 by 3 raster grid node 1 is a
  perimeter node without a cell, and the raster operator
  \<open>RasterModelGrid.calculate_flux_divergence_at_nodes\<close> returns 1 there for the fluxes
  1, 2, 3, 4 (it returns non-zero values at nodes 3, 5 and 7 as well).
\<close>

theorem flux_divergence_counterexample:
  "node_activecell raster_3x3 ! 1 = BAD_INDEX_VALUE \<and>
   RasterModelGrid_calculate_flux_divergence_at_nodes raster_3x3 flux_3x3 =
     Inr [0, 1, 0, 3, 2, - 4, 0, - 2, 0]"
  by code_simp

theorem flux_divergence_zero_without_cell_witness:
  "links_valid lattice_3x3 \<and> active_lists_consistent lattice_3x3 \<and>
   faces_valid lattice_3x3 \<and> cells_valid lattice_3x3 \<and>
   length flux_3x3 = num_active_links lattice_3x3 \<and>
   ModelGrid_calculate_flux_divergence_at_nodes lattice_3x3 flux_3x3 =
     Inr [0, 0, 0, 0, 2, 0, 0, 0, 0] \<and>
   node_activecell lattice_3x3 ! 1 = BAD_INDEX_VALUE"
proof -
  have h1: "links_valid lattice_3x3" by (rule lattice_3x3_valid)
  have h2: "active_lists_consistent lattice_3x3" by (rule lattice_3x3_valid)
  have h3: "faces_valid lattice_3x3" by (rule lattice_flux_valid)
  have h4: "cells_valid lattice_3x3" by (rule lattice_flux_valid)
  have h5: "length flux_3x3 = num_active_links lattice_3x3" by code_simp
  have v: "ModelGrid_calculate_flux_divergence_at_nodes lattice_3x3 flux_3x3 =
     Inr [0, 0, 0, 0, 2, 0, 0, 0, 0]" by code_simp
  have n: "node_activecell lattice_3x3 ! 1 = BAD_INDEX_VALUE" by code_simp
  from flux_divergence_zero_without_cell[OF h1 h2 h3 h4 h5] h1 h2 h3 h4 h5 v n
  show ?thesis by blast
qed

subsection \<open>The two formulations of the flux divergence at nodes\<close>

lemma occurrences_nth_less:
  assumes "j < count_list x n"
  shows "occurrences x n ! j < length x"
proof -
  have "occurrences x n ! j \<in> set (occurrences x n)"
    using assms by (simp add: length_occurrences)
  then show ?thesis by (simp add: occurrences_def)
qed

lemma take_idx_wrap_slot_row:
  assumes "length fl = length x"
  shows "take_idx_wrap (fl @ [0::real]) (slot_row x N j) =
     Inr (map (\<lambda>n. if j < count_list x n then fl ! (occurrences x n ! j) else 0) [0..<N])"
proof -
  have ok: "list_all (\<lambda>i. - int (length (fl @ [0])) \<le> i \<and> i < int (length (fl @ [0])))
      (slot_row x N j)"
    using occurrences_nth_less[of j x] assms
    by (fastforce simp: slot_row_def list_all_iff)
  have "map (\<lambda>i. (fl @ [0::real]) ! nat (if i < 0 then int (length (fl @ [0])) + i else i))
          (slot_row x N j) =
        map (\<lambda>n. if j < count_list x n then fl ! (occurrences x n ! j) else 0) [0..<N]"
    using occurrences_nth_less[of j x] assms
    by (auto simp: slot_row_def nth_append)
  with ok show ?thesis
    by (simp add: take_idx_wrap_def)
qed

lemma sum_list_two:
  assumes "length xs \<le> 2"
  shows "sum_list (map h xs) =
     (if 0 < length xs then h (xs ! 0) else (0::real)) + (if 1 < length xs then h (xs ! 1) else 0)"
proof (cases xs)
  case Nil
  then show ?thesis by simp
next
  case (Cons a ys)
  then show ?thesis using assms by (cases ys) auto
qed

lemma link_sum_occurrences:
  "link_sum x q (length x) n = sum_list (map q (occurrences x n))"
  by (simp add: link_sum_def occurrences_def)

lemma slots_sum:
  assumes "count_list x n \<le> 2"
  shows "(if 0 < count_list x n then h (occurrences x n ! 0) else 0) +
         (if 1 < count_list x n then h (occurrences x n ! 1) else 0) = link_sum x h (length x) n"
  unfolding link_sum_occurrences
  using sum_list_two[of "occurrences x n" h] assms by (simp add: length_occurrences)





lemma count_le_2:
  assumes "\<forall>v\<in>set x. v < N \<and> count_list x v \<le> 2"
  shows "count_list x n \<le> 2"
  using assms by (cases "n \<in> set x") (auto simp: count_notin)

lemma gather_sum:
  assumes "length fl = length x" and "\<forall>v\<in>set x. v < N \<and> count_list x v \<le> 2"
  shows "then_do (take_idx_wrap (fl @ [0::real]) (slot_row x N 0)) (\<lambda>a.
         then_do (getitem [slot_row x N 0, slot_row x N 1] 1) (\<lambda>r1.
         then_do (take_idx_wrap (fl @ [0]) r1) (\<lambda>b.
         then_do (broadcast2 a b) (\<lambda>ab. k (map (\<lambda>(a, b). a + b) ab))))) =
         k (map (link_sum x (\<lambda>j. fl ! j) (length x)) [0..<N])"
proof -
  have "map (\<lambda>(a, b). a + b)
          (zip (map (\<lambda>n. if 0 < count_list x n then fl ! (occurrences x n ! 0) else 0) [0..<N])
               (map (\<lambda>n. if 1 < count_list x n then fl ! (occurrences x n ! 1) else 0) [0..<N])) =
        map (link_sum x (\<lambda>j. fl ! j) (length x)) [0..<N]"
  proof (rule nth_equalityI)
    show "length (map (\<lambda>(a, b). a + b)
          (zip (map (\<lambda>n. if 0 < count_list x n then fl ! (occurrences x n ! 0) else 0) [0..<N])
               (map (\<lambda>n. if 1 < count_list x n then fl ! (occurrences x n ! 1) else 0) [0..<N]))) =
        length (map (link_sum x (\<lambda>j. fl ! j) (length x)) [0..<N])" by simp
  next
    fix i assume "i < length (map (\<lambda>(a, b). a + b)
          (zip (map (\<lambda>n. if 0 < count_list x n then fl ! (occurrences x n ! 0) else 0) [0..<N])
               (map (\<lambda>n. if 1 < count_list x n then fl ! (occurrences x n ! 1) else 0) [0..<N])))"
    then have i: "i < N" by simp
    show "map (\<lambda>(a, b). a + b)
          (zip (map (\<lambda>n. if 0 < count_list x n then fl ! (occurrences x n ! 0) else 0) [0..<N])
               (map (\<lambda>n. if 1 < count_list x n then fl ! (occurrences x n ! 1) else 0) [0..<N])) ! i =
        map (link_sum x (\<lambda>j. fl ! j) (length x)) [0..<N] ! i"
      using i slots_sum[OF count_le_2[OF assms(2)], of i "\<lambda>j. fl ! j"]
      by (auto split: if_splits)
  qed
  moreover have g1: "getitem [slot_row x N 0, slot_row x N 1] 1 = Inr (slot_row x N 1)"
    by (simp add: getitem_def)
  moreover have bc: "broadcast2
          (map (\<lambda>n. if 0 < count_list x n then fl ! (occurrences x n ! 0) else 0) [0..<N])
          (map (\<lambda>n. if 1 < count_list x n then fl ! (occurrences x n ! 1) else 0) [0..<N]) =
      Inr (zip (map (\<lambda>n. if 0 < count_list x n then fl ! (occurrences x n ! 0) else 0) [0..<N])
               (map (\<lambda>n. if 1 < count_list x n then fl ! (occurrences x n ! 1) else 0) [0..<N]))"
    by (simp add: broadcast2_def)
  ultimately show ?thesis
    by (simp only: take_idx_wrap_slot_row[OF assms(1)] then_do_Inr)
qed




lemma broadcast2_same: "length a = length b \<Longrightarrow> broadcast2 a b = Inr (zip a b)"
  by (simp add: broadcast2_def)









end
